theory Spec2Isabelle
  imports Complex_Main "HOL-Library.Sublist" "HOL-Library.Multiset"
begin

section \<open>Settings: the council selection and the save handler\<close>

text \<open>
  The component \<^verbatim>\<open>Settings\<close> (\<^verbatim>\<open>frontend/src/components/Settings.jsx\<close>) keeps the
  council selection in the React state \<^verbatim>\<open>councilModels\<close>, an array of model ids, and
  the chairman in \<^verbatim>\<open>chairmanModel\<close>, a string whose initial value is the empty string.
  A state setter replaces the state; a handler is a function from the state it closes
  over to the state after the call.
\<close>

subsection \<open>handleToggleModel\<close>

text \<open>
  \<^verbatim>\<open>
  const handleToggleModel = (modelId) => {
    if (councilModels.includes(modelId)) {
      // Remove model (but keep at least one)
      if (councilModels.length > 1) {
        setCouncilModels(councilModels.filter((m) => m !== modelId));
      }
    } else {
      // Add model
      setCouncilModels([...councilModels, modelId]);
    }
  };
  \<close>
\<close>

definition handleToggleModel :: "string list \<Rightarrow> string \<Rightarrow> string list" where
  "handleToggleModel councilModels modelId =
     (if modelId \<in> set councilModels then
        (if length councilModels > 1
         then filter (\<lambda>m. m \<noteq> modelId) councilModels
         else councilModels)
      else councilModels @ [modelId])"

text \<open>A sequence of clicks: each call sees the selection the previous one left.\<close>

definition toggle_all :: "string list \<Rightarrow> string list \<Rightarrow> string list" where
  "toggle_all councilModels modelIds = foldl handleToggleModel councilModels modelIds"

subsection \<open>handleSave\<close>

text \<open>
  What the handler can reach outside the component: the backend (\<^verbatim>\<open>api.updateConfig\<close>,
  or the callback \<^verbatim>\<open>onSaveOverride\<close> of the newer version of the file, which the sidebar
  binds to the creation of a conversation), the entry \<^verbatim>\<open>llm-council-config\<close> of the
  local storage, and the timer that closes the dialog. The calls are logged in the order
  they are made.
\<close>

datatype call =
    UpdateConfig "string list" string
  | SaveOverride "string list" string
  | ScheduleClose

text \<open>An awaited call either resolves or rejects with an error whose message is given.\<close>

datatype outcome = Resolves | Rejects string

record settings =
  councilModels :: "string list"
  chairmanModel :: "string option"
  saving :: bool
  settings_error :: "string option"
  successMessage :: string
  stored_config :: "(string list \<times> string option) option"
  calls :: "call list"

text \<open>
  \<^verbatim>\<open>!chairmanModel\<close>: the state is a string; \<^verbatim>\<open>null\<close> and \<^verbatim>\<open>undefined\<close> (a
  configuration without the field) are \<open>None\<close>. The empty string is falsy as they are.
\<close>

definition falsy :: "string option \<Rightarrow> bool" where
  "falsy s = (case s of None \<Rightarrow> True | Some v \<Rightarrow> v = [])"

text \<open>
  \<^verbatim>\<open>
  const handleSave = async () => {
    if (councilModels.length === 0) {
      setError('Please select at least one council member');
      return;
    }
    if (!chairmanModel) {
      setError('Please select a chairman model');
      return;
    }
    setSaving(true);
    setError(null);
    setSuccessMessage('');
    try {
      if (onSaveOverride) {
        await onSaveOverride(councilModels, chairmanModel, modelPersonas);
        return;
      }
      await api.updateConfig(councilModels, chairmanModel);
      localStorage.setItem('llm-council-config',
        JSON.stringify({ councilModels, chairmanModel }));
      setSuccessMessage('Configuration saved successfully!');
      setTimeout(() => { onClose(); }, 1500);
    } catch (err) {
      setError('Failed to save configuration: ' + err.message);
    } finally {
      setSaving(false);
    }
  };
  \<close>
  The first argument says whether \<^verbatim>\<open>onSaveOverride\<close> is given (the older version of
  the file has no such property: there it is \<open>False\<close>); the second is the outcome of
  the one call the handler awaits. The chairman passed on is the string itself, which is
  not falsy at that point.
\<close>

definition handleSave :: "bool \<Rightarrow> outcome \<Rightarrow> settings \<Rightarrow> settings" where
  "handleSave onSaveOverride res s =
     (if length (councilModels s) = 0 then
        s\<lparr>settings_error := Some ''Please select at least one council member''\<rparr>
      else if falsy (chairmanModel s) then
        s\<lparr>settings_error := Some ''Please select a chairman model''\<rparr>
      else
        let chairman = (case chairmanModel s of Some c \<Rightarrow> c | None \<Rightarrow> []);
            s1 = s\<lparr>saving := True, settings_error := None, successMessage := []\<rparr>
        in if onSaveOverride then
             (let s2 = s1\<lparr>calls := calls s1 @ [SaveOverride (councilModels s) chairman]\<rparr>
              in case res of
                   Resolves \<Rightarrow> s2\<lparr>saving := False\<rparr>
                 | Rejects msg \<Rightarrow>
                     s2\<lparr>settings_error := Some (''Failed to save configuration: '' @ msg),
                        saving := False\<rparr>)
           else
             (let s2 = s1\<lparr>calls := calls s1 @ [UpdateConfig (councilModels s) chairman]\<rparr>
              in case res of
                   Resolves \<Rightarrow>
                     s2\<lparr>stored_config := Some (councilModels s, chairmanModel s),
                        successMessage := ''Configuration saved successfully!'',
                        calls := calls s2 @ [ScheduleClose],
                        saving := False\<rparr>
                 | Rejects msg \<Rightarrow>
                     s2\<lparr>settings_error := Some (''Failed to save configuration: '' @ msg),
                        saving := False\<rparr>))"

text \<open>The calls of a log that reach the backend.\<close>

fun reaches_backend :: "call \<Rightarrow> bool" where
  "reaches_backend (UpdateConfig ms c) = True"
| "reaches_backend (SaveOverride ms c) = True"
| "reaches_backend ScheduleClose = False"

text \<open>The calls a run of the handler adds to the log.\<close>

definition calls_made :: "settings \<Rightarrow> settings \<Rightarrow> call list" where
  "calls_made s s' = drop (length (calls s)) (calls s')"

section \<open>Stage 1 view\<close>

text \<open>
  One result of a council member, as the backend sends it in the data of a
  \<^verbatim>\<open>stage1_complete\<close> event and as the component \<^verbatim>\<open>Stage1\<close> reads it. A field that is
  absent (\<^verbatim>\<open>undefined\<close>) or \<^verbatim>\<open>null\<close> is \<open>None\<close>; the two flags are read for their
  truth value only.
\<close>

record model_result =
  model :: string
  response :: "string option"
  thinking :: "string option"
  is_reasoning_model :: bool
  error :: "string option"
  persona :: "string option"
  is_rebuttal :: bool

text \<open>A string read as a condition (\<^verbatim>\<open>resp.error && ...\<close>) is true when it is given and not empty.\<close>

definition truthy :: "string option \<Rightarrow> bool" where
  "truthy s = (\<not> falsy s)"

text \<open>\<^verbatim>\<open>String.prototype.split\<close> with a one-character separator: at least one piece.\<close>

fun split :: "char \<Rightarrow> string \<Rightarrow> string list" where
  "split c [] = [[]]"
| "split c (x # xs) =
     (if x = c then [] # split c xs
      else (case split c xs of
              [] \<Rightarrow> [[x]]
            | p # ps \<Rightarrow> (x # p) # ps))"

text \<open>\<^verbatim>\<open>resp.model.split('/')[1] || resp.model\<close>\<close>

definition tab_label :: "string \<Rightarrow> string" where
  "tab_label m =
     (case split CHR ''/'' m of
        a # b # rest \<Rightarrow> (if b = [] then m else b)
      | _ \<Rightarrow> m)"

text \<open>
  What the component renders. A tab button carries the class \<^verbatim>\<open>active\<close>, the class
  \<^verbatim>\<open>error\<close>, the tooltip, the warning sign before the label, and the label. The panel
  under the tabs shows the active result: its model name, the badges, and either the
  error message or the thinking section and the response text.
\<close>

record tab =
  tab_active :: bool
  tab_error_class :: bool
  tab_title :: string
  tab_warning_sign :: bool
  tab_text :: string

datatype panel_body =
    ErrorMessage string
  | ResponseText "(nat \<times> string) option" "string option"

record panel =
  model_name :: string
  reasoning_badge :: bool
  error_badge :: bool
  persona_badge :: "string option"
  rebuttal_badge :: "string option"
  body :: panel_body

record stage1_view =
  tabs :: "tab list"
  tab_content :: panel

datatype js_error = TypeError

text \<open>
  \<^verbatim>\<open>
  {responses.map((resp, index) => (
    <button key={index}
      className={`tab ${activeTab === index ? 'active' : ''} ${resp.error ? 'error' : ''}`}
      onClick={() => setActiveTab(index)}
      title={resp.error || ''}>
      {resp.error && '(warning sign) '}
      {resp.model.split('/')[1] || resp.model}
    </button>
  ))}
  \<close>
\<close>

definition render_tab :: "nat \<Rightarrow> nat \<Rightarrow> model_result \<Rightarrow> tab" where
  "render_tab activeTab index resp =
     \<lparr>tab_active = (activeTab = index),
      tab_error_class = truthy (error resp),
      tab_title = (case error resp of Some e \<Rightarrow> e | None \<Rightarrow> []),
      tab_warning_sign = truthy (error resp),
      tab_text = tab_label (model resp)\<rparr>"

text \<open>
  The thinking section is shown when the thinking text is longer than 50 characters,
  with \<^verbatim>\<open>Math.round(thinking.length / 4)\<close> as its token count.
\<close>

definition thinking_section :: "string option \<Rightarrow> (nat \<times> string) option" where
  "thinking_section t =
     (case t of
        None \<Rightarrow> None
      | Some txt \<Rightarrow> (if length txt > 50 then Some ((length txt + 2) div 4, txt) else None))"

definition render_panel :: "model_result \<Rightarrow> panel" where
  "render_panel resp =
     \<lparr>model_name = model resp,
      reasoning_badge = is_reasoning_model resp,
      error_badge = truthy (error resp),
      persona_badge = (if truthy (persona resp) then persona resp else None),
      rebuttal_badge =
        (if is_rebuttal resp then Some ''This answer was updated after peer review.'' else None),
      body =
        (if truthy (error resp)
         then ErrorMessage (case error resp of Some e \<Rightarrow> e | None \<Rightarrow> [])
         else ResponseText (thinking_section (thinking resp)) (response resp))\<rparr>"

text \<open>
  The component, as a function of its property \<^verbatim>\<open>responses\<close> and its state
  \<^verbatim>\<open>activeTab\<close>. Without responses it renders nothing (\<open>None\<close>). The panel reads
  \<^verbatim>\<open>responses[activeTab].model\<close>: with the active tab beyond the list that is a property
  of \<^verbatim>\<open>undefined\<close>, a TypeError.
\<close>

definition Stage1 :: "model_result list option \<Rightarrow> nat \<Rightarrow> js_error + stage1_view option" where
  "Stage1 responses activeTab =
     (case responses of
        None \<Rightarrow> Inr None
      | Some rs \<Rightarrow>
          if length rs = 0 then Inr None
          else if activeTab < length rs then
            Inr (Some \<lparr>tabs = map (\<lambda>(index, resp). render_tab activeTab index resp)
                               (zip [0..<length rs] rs),
                       tab_content = render_panel (rs ! activeTab)\<rparr>)
          else Inl TypeError)"

section \<open>The conversation hook and the stream consumer\<close>

text \<open>
  \<^verbatim>\<open>useConversation\<close> (\<^verbatim>\<open>frontend/src/hooks/useConversation.js\<close>) holds the current
  conversation and updates its last message from the events of the stream. The data of
  the second and third stage and the metadata are passed through unread: they are JSON
  values.
\<close>

datatype json =
    JNull
  | JBool bool
  | JNumber rat
  | JString string
  | JArray "json list"
  | JObject "(string \<times> json) list"

text \<open>
  The object \<^verbatim>\<open>loading\<close> of an assistant message. A flag that the object does not
  have is \<open>None\<close>; the placeholder of \<^verbatim>\<open>sendMessage\<close> has all four, set to false.
\<close>

record loading_flags =
  resolving :: "bool option"
  loading_stage1 :: "bool option"
  loading_stage2 :: "bool option"
  loading_stage3 :: "bool option"

text \<open>
  A message of the list, a user message \<^verbatim>\<open>{ role: 'user', content }\<close> or an assistant
  message \<^verbatim>\<open>{ role: 'assistant', stage1, stage2, stage3, metadata, loading }\<close>. A field
  the object does not have, or whose value is \<^verbatim>\<open>null\<close>, is \<open>None\<close>: a message loaded
  from the backend has no \<^verbatim>\<open>loading\<close>.
\<close>

record message =
  role :: string
  content :: "string option"
  stage1 :: "model_result list option"
  stage2 :: "json option"
  stage3 :: "json option"
  metadata :: "json option"
  loading :: "loading_flags option"

text \<open>
  A conversation, as the backend returns it: its other fields are carried along by
  \<^verbatim>\<open>{ ...prev }\<close>, and it always has its list of messages.
\<close>

record conversation =
  conv_id :: "string option"
  created_at :: "string option"
  title :: "string option"
  messages :: "message list"

text \<open>
  The events of the stream, \<^verbatim>\<open>(eventType, event)\<close>: one constructor for each case of
  the switch, with the fields of \<^verbatim>\<open>event\<close> the case reads (\<^verbatim>\<open>event.data\<close>,
  \<^verbatim>\<open>event.metadata\<close>, \<^verbatim>\<open>event.message\<close>), and one for every other event type, which
  no case of the switch matches.
\<close>

datatype event =
    ResolvingPersonas
  | Stage1Start
  | Stage1Complete "model_result list option"
  | Stage2Start
  | Stage2Complete "json option" "json option"
  | Stage2_5Start
  | Stage3Start
  | Stage3Complete "json option"
  | TitleComplete
  | Complete
  | Error "string option"
  | OtherEvent string


text \<open>
  The state of the hook. \<^verbatim>\<open>loadConversations()\<close> starts a request for the list of
  conversations; the state counts the requests started.
\<close>

record hook =
  currentConversationId :: "string option"
  currentConversation :: "conversation option"
  isLoading :: bool
  hook_error :: "string option"
  reloads :: nat

text \<open>\<^verbatim>\<open>{ ...lastMsg.loading }\<close>: the copy of an absent object is the empty object.\<close>

definition clone_loading :: "loading_flags option \<Rightarrow> loading_flags" where
  "clone_loading l =
     (case l of
        None \<Rightarrow> \<lparr>resolving = None, loading_stage1 = None,
                  loading_stage2 = None, loading_stage3 = None\<rparr>
      | Some flags \<Rightarrow> flags)"

text \<open>
  The switch on the event type, on the copy \<^verbatim>\<open>updatedLastMsg\<close> of the last message
  whose \<^verbatim>\<open>loading\<close> is the copy \<open>l\<close>:
  \<^verbatim>\<open>
  const updatedLastMsg = { ...lastMsg, loading: { ...lastMsg.loading } };
  switch (eventType) {
    case 'resolving_personas': updatedLastMsg.loading.resolving = true; break;
    case 'stage1_start':
      updatedLastMsg.loading.resolving = false;
      updatedLastMsg.loading.stage1 = true; break;
    case 'stage1_complete':
      updatedLastMsg.stage1 = event.data;
      updatedLastMsg.loading.stage1 = false; break;
    case 'stage2_start': updatedLastMsg.loading.stage2 = true; break;
    case 'stage2_complete':
      updatedLastMsg.stage2 = event.data;
      updatedLastMsg.metadata = event.metadata;
      updatedLastMsg.loading.stage2 = false; break;
    case 'stage2_5_start':
      updatedLastMsg.loading.stage1 = true; // Re-enable loading for rebuttal updates
      break;
    case 'stage3_start': updatedLastMsg.loading.stage3 = true; break;
    case 'stage3_complete':
      updatedLastMsg.stage3 = event.data;
      updatedLastMsg.loading.stage3 = false; break;
    case 'title_complete': loadConversations(); break;
    case 'complete': loadConversations(); setIsLoading(false); break;
    case 'error': console.error(...); setIsLoading(false); break;
  }
  \<close>
\<close>

fun update_last :: "event \<Rightarrow> message \<Rightarrow> loading_flags \<Rightarrow> message" where
  "update_last ResolvingPersonas m l = m\<lparr>loading := Some (l\<lparr>resolving := Some True\<rparr>)\<rparr>"
| "update_last Stage1Start m l =
     m\<lparr>loading := Some (l\<lparr>resolving := Some False, loading_stage1 := Some True\<rparr>)\<rparr>"
| "update_last (Stage1Complete d) m l =
     m\<lparr>stage1 := d, loading := Some (l\<lparr>loading_stage1 := Some False\<rparr>)\<rparr>"
| "update_last Stage2Start m l = m\<lparr>loading := Some (l\<lparr>loading_stage2 := Some True\<rparr>)\<rparr>"
| "update_last (Stage2Complete d md) m l =
     m\<lparr>stage2 := d, metadata := md, loading := Some (l\<lparr>loading_stage2 := Some False\<rparr>)\<rparr>"
| "update_last Stage2_5Start m l = m\<lparr>loading := Some (l\<lparr>loading_stage1 := Some True\<rparr>)\<rparr>"
| "update_last Stage3Start m l = m\<lparr>loading := Some (l\<lparr>loading_stage3 := Some True\<rparr>)\<rparr>"
| "update_last (Stage3Complete d) m l =
     m\<lparr>stage3 := d, loading := Some (l\<lparr>loading_stage3 := Some False\<rparr>)\<rparr>"
| "update_last TitleComplete m l = m\<lparr>loading := Some l\<rparr>"
| "update_last Complete m l = m\<lparr>loading := Some l\<rparr>"
| "update_last (Error msg) m l = m\<lparr>loading := Some l\<rparr>"
| "update_last (OtherEvent t) m l = m\<lparr>loading := Some l\<rparr>"

text \<open>The calls the switch makes on the other states of the hook.\<close>

fun side_effects :: "event \<Rightarrow> hook \<Rightarrow> hook" where
  "side_effects TitleComplete st = st\<lparr>reloads := reloads st + 1\<rparr>"
| "side_effects Complete st = st\<lparr>reloads := reloads st + 1, isLoading := False\<rparr>"
| "side_effects (Error msg) st = st\<lparr>isLoading := False\<rparr>"
| "side_effects ev st = st"

text \<open>
  The callback given to \<^verbatim>\<open>api.sendMessageStream\<close>:
  \<^verbatim>\<open>
  setCurrentConversation(prev => {
    if (!prev) return prev;
    const messages = [...prev.messages];
    const lastMsg = messages[messages.length - 1];
    const updatedLastMsg = ...; switch ...
    messages[messages.length - 1] = updatedLastMsg;
    return { ...prev, messages };
  });
  \<close>
  Without a conversation nothing happens, the calls of the switch included. With an empty
  list \<^verbatim>\<open>lastMsg\<close> is \<^verbatim>\<open>undefined\<close>, and reading \<^verbatim>\<open>lastMsg.loading\<close> throws.
\<close>

definition on_event :: "event \<Rightarrow> hook \<Rightarrow> js_error + hook" where
  "on_event ev st =
     (case currentConversation st of
        None \<Rightarrow> Inr st
      | Some prev \<Rightarrow>
          if messages prev = [] then Inl TypeError
          else
            let lastMsg = last (messages prev);
                updatedLastMsg = update_last ev lastMsg (clone_loading (loading lastMsg));
                msgs = (messages prev)[length (messages prev) - 1 := updatedLastMsg]
            in Inr (side_effects ev (st\<lparr>currentConversation := Some (prev\<lparr>messages := msgs\<rparr>)\<rparr>)))"

text \<open>The events of a stream, handled in the order of their delivery.\<close>

fun run_events :: "event list \<Rightarrow> hook \<Rightarrow> js_error + hook" where
  "run_events [] st = Inr st"
| "run_events (ev # evs) st =
     (case on_event ev st of
        Inl e \<Rightarrow> Inl e
      | Inr st' \<Rightarrow> run_events evs st')"

text \<open>The two messages \<^verbatim>\<open>sendMessage\<close> adds before the stream starts.\<close>

definition userMessage :: "string \<Rightarrow> message" where
  "userMessage c =
     \<lparr>role = ''user'', content = Some c, stage1 = None, stage2 = None, stage3 = None,
      metadata = None, loading = None\<rparr>"

definition assistantMessage :: message where
  "assistantMessage =
     \<lparr>role = ''assistant'', content = None, stage1 = None, stage2 = None, stage3 = None,
      metadata = None,
      loading = Some \<lparr>resolving = Some False, loading_stage1 = Some False,
                      loading_stage2 = Some False, loading_stage3 = Some False\<rparr>\<rparr>"

text \<open>
  \<^verbatim>\<open>prev => ({ ...prev, messages: [...(prev?.messages || []), m] })\<close>: without a
  conversation the result is an object that has the list only.
\<close>

definition append_message :: "message \<Rightarrow> conversation option \<Rightarrow> conversation" where
  "append_message m prev =
     (case prev of
        None \<Rightarrow> \<lparr>conv_id = None, created_at = None, title = None, messages = [m]\<rparr>
      | Some c \<Rightarrow> c\<lparr>messages := messages c @ [m]\<rparr>)"

text \<open>
  The handler of the \<^verbatim>\<open>catch\<close>:
  \<^verbatim>\<open>
  setCurrentConversation(prev => {
    if (!prev) return prev;
    const msgCount = prev.messages.length;
    return { ...prev, messages: prev.messages.slice(0, Math.max(0, msgCount - 2)) };
  });
  \<close>
\<close>

definition remove_optimistic :: "conversation option \<Rightarrow> conversation option" where
  "remove_optimistic prev =
     (case prev of
        None \<Rightarrow> None
      | Some c \<Rightarrow>
          Some (c\<lparr>messages :=
                    take (nat (max 0 (int (length (messages c)) - 2))) (messages c)\<rparr>))"

text \<open>
  A call of \<^verbatim>\<open>api.sendMessageStream\<close> delivers events to the callback and then either
  returns or throws an error with a message.
\<close>

datatype stream_end = Returns | Throws string

text \<open>
  \<^verbatim>\<open>
  const sendMessage = async (content) => {
    if (!currentConversationId) return;
    setIsLoading(true);
    try {
      setCurrentConversation(prev => (... userMessage ...));
      setCurrentConversation(prev => (... assistantMessage ...));
      await api.sendMessageStream(currentConversationId, content, (eventType, event) => ...);
    } catch (err) {
      setCurrentConversation(prev => ... slice ...);
      setIsLoading(false);
      setError(err.message);
    }
  };
  \<close>
  An error thrown inside a state update is raised by React when it renders and is not
  caught by the \<^verbatim>\<open>catch\<close> of the handler: it is the result \<open>Inl\<close>.
\<close>

definition sendMessage :: "string \<Rightarrow> event list \<Rightarrow> stream_end \<Rightarrow> hook \<Rightarrow> js_error + hook" where
  "sendMessage c evs fin st =
     (if falsy (currentConversationId st) then Inr st
      else
        let st1 = st\<lparr>isLoading := True\<rparr>;
            st2 = st1\<lparr>currentConversation :=
                       Some (append_message (userMessage c) (currentConversation st1))\<rparr>;
            st3 = st2\<lparr>currentConversation :=
                       Some (append_message assistantMessage (currentConversation st2))\<rparr>
        in case run_events evs st3 of
             Inl e \<Rightarrow> Inl e
           | Inr st4 \<Rightarrow>
               (case fin of
                  Returns \<Rightarrow> Inr st4
                | Throws msg \<Rightarrow>
                    Inr (st4\<lparr>currentConversation := remove_optimistic (currentConversation st4),
                              isLoading := False,
                              hook_error := Some msg\<rparr>)))"

subsection \<open>The older handler of the application component\<close>

text \<open>
  \<^verbatim>\<open>handleSendMessage\<close> of the older \<^verbatim>\<open>App.jsx\<close> keeps the same state in the
  component. Its callback updates the last message in place, one state update for each
  stage event:
  \<^verbatim>\<open>
  case 'stage1_complete':
    setCurrentConversation((prev) => {
      const messages = [...prev.messages];
      const lastMsg = messages[messages.length - 1];
      lastMsg.stage1 = event.data;
      lastMsg.loading.stage1 = false;
      return { ...prev, messages };
    });
    break;
  ...
  case 'title_complete': loadConversations(); break;
  case 'complete': loadConversations(); setIsLoading(false); break;
  case 'error': console.error(...); setIsLoading(false); break;
  default: console.log('Unknown event type:', eventType);
  \<close>
  Reading \<^verbatim>\<open>prev.messages\<close> without a conversation, \<^verbatim>\<open>lastMsg.loading\<close> without a
  last message, or writing a flag of an absent \<^verbatim>\<open>loading\<close> throws.
\<close>

fun is_stage_event :: "event \<Rightarrow> bool" where
  "is_stage_event TitleComplete = False"
| "is_stage_event Complete = False"
| "is_stage_event (Error msg) = False"
| "is_stage_event (OtherEvent t) = False"
| "is_stage_event ev = True"

definition App_on_event :: "event \<Rightarrow> hook \<Rightarrow> js_error + hook" where
  "App_on_event ev st =
     (if is_stage_event ev then
        (case currentConversation st of
           None \<Rightarrow> Inl TypeError
         | Some prev \<Rightarrow>
             if messages prev = [] then Inl TypeError
             else
               (case loading (last (messages prev)) of
                  None \<Rightarrow> Inl TypeError
                | Some l \<Rightarrow>
                    Inr (st\<lparr>currentConversation :=
                              Some (prev\<lparr>messages :=
                                (messages prev)[length (messages prev) - 1 :=
                                   update_last ev (last (messages prev)) l]\<rparr>)\<rparr>)))
      else Inr (side_effects ev st))"

fun App_run_events :: "event list \<Rightarrow> hook \<Rightarrow> js_error + hook" where
  "App_run_events [] st = Inr st"
| "App_run_events (ev # evs) st =
     (case App_on_event ev st of
        Inl e \<Rightarrow> Inl e
      | Inr st' \<Rightarrow> App_run_events evs st')"

text \<open>
  \<^verbatim>\<open>
  const handleSendMessage = async (content) => {
    if (!currentConversationId) return;
    setIsLoading(true);
    try {
      setCurrentConversation((prev) => ({ ...prev, messages: [...prev.messages, userMessage] }));
      setCurrentConversation((prev) => ({ ...prev, messages: [...prev.messages, assistantMessage] }));
      await api.sendMessageStream(currentConversationId, content, (eventType, event) => ...);
    } catch (error) {
      setCurrentConversation((prev) => ({ ...prev, messages: prev.messages.slice(0, -2) }));
      setIsLoading(false);
    }
  };
  \<close>
\<close>

definition App_append :: "message \<Rightarrow> conversation option \<Rightarrow> js_error + conversation" where
  "App_append m prev =
     (case prev of
        None \<Rightarrow> Inl TypeError
      | Some c \<Rightarrow> Inr (c\<lparr>messages := messages c @ [m]\<rparr>))"

definition App_remove_optimistic :: "conversation option \<Rightarrow> js_error + conversation" where
  "App_remove_optimistic prev =
     (case prev of
        None \<Rightarrow> Inl TypeError
      | Some c \<Rightarrow> Inr (c\<lparr>messages := take (length (messages c) - 2) (messages c)\<rparr>))"

definition handleSendMessage :: "string \<Rightarrow> event list \<Rightarrow> stream_end \<Rightarrow> hook \<Rightarrow> js_error + hook" where
  "handleSendMessage c evs fin st =
     (if falsy (currentConversationId st) then Inr st
      else
        (case App_append (userMessage c) (currentConversation st) of
           Inl e \<Rightarrow> Inl e
         | Inr c1 \<Rightarrow>
             (case App_append assistantMessage (Some c1) of
                Inl e \<Rightarrow> Inl e
              | Inr c2 \<Rightarrow>
                  (case App_run_events evs (st\<lparr>isLoading := True, currentConversation := Some c2\<rparr>) of
                     Inl e \<Rightarrow> Inl e
                   | Inr st4 \<Rightarrow>
                       (case fin of
                          Returns \<Rightarrow> Inr st4
                        | Throws msg \<Rightarrow>
                            (case App_remove_optimistic (currentConversation st4) of
                               Inl e \<Rightarrow> Inl e
                             | Inr c5 \<Rightarrow>
                                 Inr (st4\<lparr>currentConversation := Some c5,
                                           isLoading := False\<rparr>)))))))"

subsection \<open>The last message under a stream of events\<close>

text \<open>
  What the callback does to the last message alone, and what it does to the other states
  of the hook, for one event and for a list of events.
\<close>

definition consume :: "event \<Rightarrow> message \<Rightarrow> message" where
  "consume ev m = update_last ev m (clone_loading (loading m))"

fun consume_all :: "event list \<Rightarrow> message \<Rightarrow> message" where
  "consume_all [] m = m"
| "consume_all (ev # evs) m = consume_all evs (consume ev m)"

fun side_effects_all :: "event list \<Rightarrow> hook \<Rightarrow> hook" where
  "side_effects_all [] st = st"
| "side_effects_all (ev # evs) st = side_effects_all evs (side_effects ev st)"

fun is_stage1_complete :: "event \<Rightarrow> bool" where
  "is_stage1_complete (Stage1Complete d) = True"
| "is_stage1_complete ev = False"

subsection \<open>An exchange, for the examples\<close>

text \<open>The answer of one council member, and the answer it gives in the rebuttal round.\<close>

definition first_answer :: model_result where
  "first_answer =
     \<lparr>model = ''openai/gpt-4o'', response = Some ''first'', thinking = None,
      is_reasoning_model = False, error = None, persona = None, is_rebuttal = False\<rparr>"

definition revised_answer :: model_result where
  "revised_answer =
     \<lparr>model = ''openai/gpt-4o'', response = Some ''revised'', thinking = None,
      is_reasoning_model = False, error = None, persona = None, is_rebuttal = True\<rparr>"





text \<open>A hook whose conversation has an earlier exchange, as the backend stores it.\<close>

definition stored_reply :: message where
  "stored_reply =
     \<lparr>role = ''assistant'', content = None, stage1 = Some [first_answer],
      stage2 = Some (JArray []), stage3 = Some (JString ''final''), metadata = None,
      loading = None\<rparr>"

definition history_hook :: hook where
  "history_hook =
     \<lparr>currentConversationId = Some ''c1'',
      currentConversation =
        Some \<lparr>conv_id = Some ''c1'', created_at = None, title = Some ''T'',
              messages = [userMessage ''Q'', stored_reply]\<rparr>,
      isLoading = False, hook_error = None, reloads = 0\<rparr>"

text \<open>The last message once the stage 2 results are in, and the hook that shows it.\<close>

definition reviewed_reply :: message where
  "reviewed_reply =
     assistantMessage\<lparr>stage1 := Some [first_answer], stage2 := Some (JArray []),
       metadata := Some (JObject [])\<rparr>"

definition reviewed_hook :: "message \<Rightarrow> hook" where
  "reviewed_hook m =
     \<lparr>currentConversationId = Some ''c1'',
      currentConversation =
        Some \<lparr>conv_id = Some ''c1'', created_at = None, title = None,
              messages = [userMessage ''X'', m]\<rparr>,
      isLoading = True, hook_error = None, reloads = 0\<rparr>"

section \<open>What the chat shows of an exchange\<close>

text \<open>
  \<^verbatim>\<open>ChatInterface\<close> shows a spinner under an assistant message for each flag of its
  \<^verbatim>\<open>loading\<close> that is true (\<^verbatim>\<open>msg.loading?.resolving && ...\<close>, and so for the three
  stages).
\<close>

definition flag_on :: "(loading_flags \<Rightarrow> bool option) \<Rightarrow> message \<Rightarrow> bool" where
  "flag_on flag m = (case loading m of None \<Rightarrow> False | Some l \<Rightarrow> flag l = Some True)"




text \<open>The fields of a message an event can write, and the fields each case of the switch writes.\<close>

datatype field =
    Role | Content | Stage1Data | Stage2Data | Stage3Data | Metadata
  | LoadingResolving | LoadingStage1 | LoadingStage2 | LoadingStage3

fun written :: "event \<Rightarrow> field set" where
  "written ResolvingPersonas = {LoadingResolving}"
| "written Stage1Start = {LoadingResolving, LoadingStage1}"
| "written (Stage1Complete d) = {Stage1Data, LoadingStage1}"
| "written Stage2Start = {LoadingStage2}"
| "written (Stage2Complete d md) = {Stage2Data, Metadata, LoadingStage2}"
| "written Stage2_5Start = {LoadingStage1}"
| "written Stage3Start = {LoadingStage3}"
| "written (Stage3Complete d) = {Stage3Data, LoadingStage3}"
| "written ev = {}"

fun same_field :: "field \<Rightarrow> message \<Rightarrow> message \<Rightarrow> bool" where
  "same_field Role m m' = (role m' = role m)"
| "same_field Content m m' = (content m' = content m)"
| "same_field Stage1Data m m' = (stage1 m' = stage1 m)"
| "same_field Stage2Data m m' = (stage2 m' = stage2 m)"
| "same_field Stage3Data m m' = (stage3 m' = stage3 m)"
| "same_field Metadata m m' = (metadata m' = metadata m)"
| "same_field LoadingResolving m m' =
     (map_option resolving (loading m') = map_option resolving (loading m))"
| "same_field LoadingStage1 m m' =
     (map_option loading_stage1 (loading m') = map_option loading_stage1 (loading m))"
| "same_field LoadingStage2 m m' =
     (map_option loading_stage2 (loading m') = map_option loading_stage2 (loading m))"
| "same_field LoadingStage3 m m' =
     (map_option loading_stage3 (loading m') = map_option loading_stage3 (loading m))"

section \<open>The orchestrator as the source of the events\<close>

text \<open>
  The events are emitted by the Deliberation Orchestrator, which runs in the backend; the
  sources of the frontend do not have it. It is modelled from the specification.
\<close>

text \<open>
  Modelled from the spec: the states of the Deliberation Orchestrator (section 4.5),
  missing from the source: \<^verbatim>\<open>Idle\<close>, \<^verbatim>\<open>ResolvingPersonas\<close>, \<^verbatim>\<open>Stage1\<close>, \<^verbatim>\<open>Stage2\<close>,
  \<^verbatim>\<open>Stage2_5\<close>, \<^verbatim>\<open>Stage3\<close>, \<^verbatim>\<open>Complete\<close> and the terminal \<^verbatim>\<open>Failed\<close>.
\<close>

datatype orchestrator_state =
    AtIdle | AtResolvingPersonas | AtStage1 | AtStage2 | AtStage2_5 | AtStage3
  | AtComplete | AtFailed

text \<open>
  Modelled from the spec: the transitions of the Deliberation Orchestrator (section 4.5)
  with the events of the emit contract (section 4.6) that each one emits, missing from
  the source. A state is entered with its start event and a stage is left with its
  completion event; personas are resolved when they are configured (\<^verbatim>\<open>Idle\<close> leads to
  \<^verbatim>\<open>ResolvingPersonas\<close> or to \<^verbatim>\<open>Stage1\<close>); the rebuttal stage has no completion event
  in the contract; \<^verbatim>\<open>Failed\<close> is reached from any stage on a fatal error, with the
  \<^verbatim>\<open>Error\<close> event. The specification names no transition that emits \<^verbatim>\<open>TitleComplete\<close>:
  the model emits none. The data of the events is not constrained.
\<close>

inductive transition ::
  "orchestrator_state \<Rightarrow> event list \<Rightarrow> orchestrator_state \<Rightarrow> bool" where
  resolve: "transition AtIdle [ResolvingPersonas] AtResolvingPersonas"
| enter_stage1: "transition AtIdle [Stage1Start] AtStage1"
| enter_stage1_resolved: "transition AtResolvingPersonas [Stage1Start] AtStage1"
| stage1_to_stage2: "transition AtStage1 [Stage1Complete d, Stage2Start] AtStage2"
| stage2_to_rebuttal:
    "transition AtStage2 [Stage2Complete d md, Stage2_5Start] AtStage2_5"
| rebuttal_to_stage3: "transition AtStage2_5 [Stage3Start] AtStage3"
| stage3_to_complete: "transition AtStage3 [Stage3Complete d, Complete] AtComplete"
| fatal:
    "s \<in> {AtStage1, AtStage2, AtStage2_5, AtStage3} \<Longrightarrow> transition s [Error msg] AtFailed"

code_pred transition .

text \<open>
  Modelled from the spec: an exchange as a run of the state machine (section 4.5),
  missing from the source: the events of its transitions, in the order the orchestrator
  produced them, which is the order of their delivery (section 4.6). An exchange is
  successful when its run from \<^verbatim>\<open>Idle\<close> ends in \<^verbatim>\<open>Complete\<close>.
\<close>

inductive run :: "orchestrator_state \<Rightarrow> event list \<Rightarrow> orchestrator_state \<Rightarrow> bool" where
  start: "run s [] s"
| more: "run s evs s' \<Longrightarrow> transition s' new s'' \<Longrightarrow> run s (evs @ new) s''"

code_pred run .






section \<open>The anonymizer and the ranking aggregator\<close>

text \<open>
  The two components run in the backend; the sources of the frontend do not have them.
  They are modelled from the specification.
\<close>

text \<open>
  Modelled from the spec: the Label of the data model (section 3), missing from the
  source: an opaque token of one exchange. \<open>Label 0\<close> is "A", \<open>Label 1\<close> is "B", and so
  on.
\<close>

datatype label = Label nat










text \<open>
  Modelled from the spec: the position of a labeled answer in a review, for the Ranking
  Aggregator (section 4.4), missing from the source. A review is the list of labels of
  one reviewer, best first; the position of a label in it counts from 1, and a label the
  review does not rank has none.
\<close>

fun position :: "label \<Rightarrow> label list \<Rightarrow> nat option" where
  "position l [] = None"
| "position l (x # xs) =
     (if x = l then Some 1 else map_option Suc (position l xs))"

text \<open>
  Modelled from the spec: the positions of a labeled answer across all reviews that rank
  it (section 4.4), missing from the source: a review that does not rank the answer
  contributes nothing.
\<close>

definition positions :: "label list list \<Rightarrow> label \<Rightarrow> nat list" where
  "positions reviews l = concat (map (\<lambda>r. case position l r of None \<Rightarrow> [] | Some p \<Rightarrow> [p]) reviews)"

text \<open>
  Modelled from the spec: the score of a labeled answer (section 4.4), missing from the
  source: the mean of its positions, when a review ranks it.
\<close>

definition mean_rank :: "label list list \<Rightarrow> label \<Rightarrow> rat option" where
  "mean_rank reviews l =
     (let ps = positions reviews l
      in if ps = [] then None else Some (of_nat (sum_list ps) / of_nat (length ps)))"

text \<open>
  Modelled from the spec: an entry of the AggregateRanking (section 3), missing from the
  source: the answer, its mean rank, the number of reviews that rank it, and the number
  that do not (the abstentions).
\<close>

record entry =
  answer :: label
  mean :: rat
  votes :: nat
  abstentions :: nat

text \<open>
  Modelled from the spec: the order of the aggregate ranking (section 4.4), missing from
  the source. Lower mean is better; equal means are ordered by fewer abstentions.
\<close>

definition better :: "entry \<Rightarrow> entry \<Rightarrow> bool" where
  "better a b = (mean a < mean b \<or> (mean a = mean b \<and> abstentions a < abstentions b))"

text \<open>
  Modelled from the spec: the tie-break by the order of the input (section 4.4), missing
  from the source: an entry is put before the first entry it is strictly better than, so
  after the entries it ties with.
\<close>

fun place :: "entry \<Rightarrow> entry list \<Rightarrow> entry list" where
  "place e [] = [e]"
| "place e (x # xs) = (if better e x then e # x # xs else x # place e xs)"

text \<open>
  Modelled from the spec: the entries of the labeled answers, in the order of the
  answers (section 4.4), missing from the source. An answer that no review ranks has no
  mean and no entry.
\<close>

definition entries :: "label list \<Rightarrow> label list list \<Rightarrow> entry list" where
  "entries answers reviews =
     concat (map (\<lambda>l. case mean_rank reviews l of
                         None \<Rightarrow> []
                       | Some mu \<Rightarrow>
                           [\<lparr>answer = l, mean = mu,
                             votes = length (positions reviews l),
                             abstentions = length reviews - length (positions reviews l)\<rparr>])
                 answers)"

text \<open>
  Modelled from the spec: the function \<^verbatim>\<open>aggregate(reviews) -> AggregateRanking\<close> of the
  Ranking Aggregator (section 4.4), missing from the source, for the labeled answers of
  the exchange: the entries, each placed in turn.
\<close>

definition aggregate :: "label list \<Rightarrow> label list list \<Rightarrow> entry list" where
  "aggregate answers reviews = foldl (\<lambda>acc e. place e acc) [] (entries answers reviews)"

text \<open>
  Modelled from the spec: a mean rank as the specification prints it (section 8), rounded
  to hundredths: 133 is 1.33.
\<close>

definition hundredths :: "rat \<Rightarrow> int" where
  "hundredths x = \<lfloor>x * 100 + 1 / 2\<rfloor>"

section \<open>Properties of the council selection\<close>

lemma length_filter_neq:
  assumes "distinct cm" and "m \<in> set cm"
  shows "length (filter (\<lambda>x. x \<noteq> m) cm) = length cm - 1"
proof -
  have "filter (\<lambda>x. x \<noteq> m) cm = removeAll m cm"
    by (induction cm) auto
  also have "\<dots> = remove1 m cm"
    using assms(1) by (simp add: distinct_remove1_removeAll)
  finally show ?thesis
    using assms(2) by (simp add: length_remove1)
qed

lemma handleToggleModel_distinct:
  "distinct cm \<Longrightarrow> distinct (handleToggleModel cm m)"
  by (simp add: handleToggleModel_def)

lemma handleToggleModel_nonempty:
  assumes "cm \<noteq> []" and "distinct cm"
  shows "handleToggleModel cm m \<noteq> []"
proof (cases "m \<in> set cm \<and> length cm > 1")
  case True
  then obtain a b rest where cm: "cm = a # b # rest"
    by (cases cm; cases "tl cm") auto
  with assms(2) have "a \<noteq> b" by simp
  then have "a \<noteq> m \<or> b \<noteq> m" by auto
  then have "filter (\<lambda>x. x \<noteq> m) cm \<noteq> []"
    unfolding cm by auto
  with True show ?thesis by (simp add: handleToggleModel_def)
next
  case False
  with assms(1) show ?thesis by (auto simp: handleToggleModel_def)
qed

lemma toggle_all_invariant:
  "cm \<noteq> [] \<Longrightarrow> distinct cm \<Longrightarrow>
     toggle_all cm ids \<noteq> [] \<and> distinct (toggle_all cm ids)"
  unfolding toggle_all_def
proof (induction ids arbitrary: cm)
  case Nil
  then show ?case by simp
next
  case (Cons i ids)
  have "handleToggleModel cm i \<noteq> []"
    using Cons.prems by (rule handleToggleModel_nonempty)
  moreover have "distinct (handleToggleModel cm i)"
    using Cons.prems(2) by (rule handleToggleModel_distinct)
  ultimately show ?case
    using Cons.IH [of "handleToggleModel cm i"] by simp
qed

text \<open>
  On a selection that lists no model twice the guard keeps at least one model: from every
  such selection that is not empty, every sequence of calls leaves a selection that is
  not empty and lists no model twice. A call on a selected model removes it when the
  selection has at least two entries and changes nothing when the model is the only
  entry; a call on an unselected model appends it.
\<close>

lemma distinct_selection_stays_nonempty:
  assumes "cm \<noteq> []" and "distinct cm"
  shows "toggle_all cm ids \<noteq> [] \<and> distinct (toggle_all cm ids) \<and>
         (m \<in> set cm \<and> length cm \<ge> 2 \<longrightarrow>
            handleToggleModel cm m = filter (\<lambda>x. x \<noteq> m) cm \<and>
            m \<notin> set (handleToggleModel cm m) \<and>
            length (handleToggleModel cm m) = length cm - 1) \<and>
         (cm = [m] \<longrightarrow> handleToggleModel cm m = cm) \<and>
         (m \<notin> set cm \<longrightarrow> handleToggleModel cm m = cm @ [m])"
proof -
  have inv: "toggle_all cm ids \<noteq> [] \<and> distinct (toggle_all cm ids)"
    using assms by (rule toggle_all_invariant)
  have rem: "m \<in> set cm \<and> length cm \<ge> 2 \<longrightarrow>
            handleToggleModel cm m = filter (\<lambda>x. x \<noteq> m) cm \<and>
            m \<notin> set (handleToggleModel cm m) \<and>
            length (handleToggleModel cm m) = length cm - 1"
    using assms(2) by (simp add: handleToggleModel_def length_filter_neq)
  have last: "cm = [m] \<longrightarrow> handleToggleModel cm m = cm"
    by (simp add: handleToggleModel_def)
  have add: "m \<notin> set cm \<longrightarrow> handleToggleModel cm m = cm @ [m]"
    by (simp add: handleToggleModel_def)
  from inv rem last add show ?thesis by blast
qed

text \<open>
  C10: the selection is to remain non-empty from every non-empty selection, and the
  comment of the handler says the same (\<^verbatim>\<open>Remove model (but keep at least one)\<close>). The
  guard counts the entries of the array, and the filter removes every entry equal to the
  model: a selection that lists its one model twice has two entries, passes the guard,
  and is emptied by one call.
\<close>

theorem C10_duplicate_selection_is_emptied:
  "[''openai/gpt-4o'', ''openai/gpt-4o''] \<noteq> [] \<and>
   handleToggleModel [''openai/gpt-4o'', ''openai/gpt-4o''] ''openai/gpt-4o'' = [] \<and>
   toggle_all [''openai/gpt-4o'', ''openai/gpt-4o''] [''openai/gpt-4o''] = []"
  by (simp add: toggle_all_def handleToggleModel_def)

section \<open>Properties of the save handler\<close>

text \<open>
  C2: a save with an empty council list or without a chairman sets the error message and
  returns: no call is made (the log of calls is as before, so \<^verbatim>\<open>api.updateConfig\<close> is
  not invoked), the stored configuration is as before, and the state differs from the
  one before in the error message only. A call of the run reaches the backend only when
  the list is not empty and a chairman is selected, and then one does.
\<close>

theorem C2_save_guard:
  "(length (councilModels s) = 0 \<or> falsy (chairmanModel s) \<longrightarrow>
       settings_error (handleSave ov res s) \<noteq> None \<and>
       calls (handleSave ov res s) = calls s \<and>
       stored_config (handleSave ov res s) = stored_config s \<and>
       handleSave ov res s = s\<lparr>settings_error := settings_error (handleSave ov res s)\<rparr>) \<and>
   ((\<exists>c \<in> set (calls_made s (handleSave ov res s)). reaches_backend c) \<longrightarrow>
       councilModels s \<noteq> [] \<and> \<not> falsy (chairmanModel s)) \<and>
   (councilModels s \<noteq> [] \<and> \<not> falsy (chairmanModel s) \<longrightarrow>
       (\<exists>c \<in> set (calls_made s (handleSave ov res s)). reaches_backend c))"
  by (cases res; cases ov) (auto simp: handleSave_def calls_made_def Let_def)

theorem C2_save_guard_witness:
  "calls (handleSave False Resolves
       \<lparr>councilModels = [], chairmanModel = Some ''openai/gpt-4o'', saving = False,
        settings_error = None, successMessage = [], stored_config = None, calls = []\<rparr>) = [] \<and>
   settings_error (handleSave False Resolves
       \<lparr>councilModels = [], chairmanModel = Some ''openai/gpt-4o'', saving = False,
        settings_error = None, successMessage = [], stored_config = None, calls = []\<rparr>)
     = Some ''Please select at least one council member'' \<and>
   calls (handleSave False Resolves
       \<lparr>councilModels = [''openai/gpt-4o''], chairmanModel = Some [], saving = False,
        settings_error = None, successMessage = [], stored_config = None, calls = []\<rparr>) = [] \<and>
   calls (handleSave False Resolves
       \<lparr>councilModels = [''openai/gpt-4o''], chairmanModel = Some ''openai/gpt-4o'',
        saving = False, settings_error = None, successMessage = [], stored_config = None,
        calls = []\<rparr>) =
     [UpdateConfig [''openai/gpt-4o''] ''openai/gpt-4o'', ScheduleClose]"
  using
    C2_save_guard [of "\<lparr>councilModels = [], chairmanModel = Some ''openai/gpt-4o'',
        saving = False, settings_error = None, successMessage = [], stored_config = None,
        calls = []\<rparr>" False Resolves]
    C2_save_guard [of "\<lparr>councilModels = [''openai/gpt-4o''],
        chairmanModel = Some ''openai/gpt-4o'', saving = False, settings_error = None,
        successMessage = [], stored_config = None, calls = []\<rparr>" False Resolves]
  by (simp add: handleSave_def falsy_def)

section \<open>Properties of the Stage 1 view\<close>

text \<open>
  C3: the view of a list of results has one tab for each result, in the order of the
  list, whether the result has an error or not. The tab of a result with an error has the
  warning sign, the error class and the error as its tooltip; when such a result is the
  active one, the panel has the error badge and the failure message with the error, in
  the place of the response text. (A list is rendered with the active tab inside it; an
  error is set when it is a string that is not empty.)
\<close>

theorem C3_every_result_has_its_tab:
  "activeTab < length rs \<longrightarrow>
     (\<exists>v. Stage1 (Some rs) activeTab = Inr (Some v) \<and>
          length (tabs v) = length rs \<and>
          (\<forall>i<length rs.
             tab_text (tabs v ! i) = tab_label (model (rs ! i)) \<and>
             (truthy (error (rs ! i)) \<longrightarrow>
                tab_warning_sign (tabs v ! i) \<and> tab_error_class (tabs v ! i) \<and>
                error (rs ! i) = Some (tab_title (tabs v ! i)))) \<and>
          (truthy (error (rs ! activeTab)) \<longrightarrow>
             error_badge (tab_content v) \<and>
             (\<exists>e. error (rs ! activeTab) = Some e \<and>
                  body (tab_content v) = ErrorMessage e)))"
  by (auto simp: Stage1_def render_tab_def render_panel_def truthy_def falsy_def
           split: option.splits)

theorem C3_every_result_has_its_tab_witness:
  "Stage1 (Some
       [\<lparr>model = ''openai/gpt-4o'', response = Some ''text'', thinking = None,
         is_reasoning_model = False, error = None, persona = None, is_rebuttal = False\<rparr>,
        \<lparr>model = ''google/gemini-1.5-pro'', response = None, thinking = None,
         is_reasoning_model = False, error = Some ''timeout'', persona = None,
         is_rebuttal = False\<rparr>]) 1 =
     Inr (Some
       \<lparr>tabs =
          [\<lparr>tab_active = False, tab_error_class = False, tab_title = [],
            tab_warning_sign = False, tab_text = ''gpt-4o''\<rparr>,
           \<lparr>tab_active = True, tab_error_class = True, tab_title = ''timeout'',
            tab_warning_sign = True, tab_text = ''gemini-1.5-pro''\<rparr>],
        tab_content =
          \<lparr>model_name = ''google/gemini-1.5-pro'', reasoning_badge = False,
           error_badge = True, persona_badge = None, rebuttal_badge = None,
           body = ErrorMessage ''timeout''\<rparr>\<rparr>)"
  using C3_every_result_has_its_tab [of 1
       "[\<lparr>model = ''openai/gpt-4o'', response = Some ''text'', thinking = None,
         is_reasoning_model = False, error = None, persona = None, is_rebuttal = False\<rparr>,
        \<lparr>model = ''google/gemini-1.5-pro'', response = None, thinking = None,
         is_reasoning_model = False, error = Some ''timeout'', persona = None,
         is_rebuttal = False\<rparr>]"]
  by (simp add: Stage1_def render_tab_def render_panel_def truthy_def falsy_def tab_label_def
        upt_rec)

section \<open>Properties of the stream consumer\<close>

lemma list_update_last: "xs \<noteq> [] \<Longrightarrow> xs[length xs - 1 := x] = butlast xs @ [x]"
  by (induction xs rule: rev_induct) (auto simp: list_update_append)

lemma side_effects_currentConversation [simp]:
  "currentConversation (side_effects ev st) = currentConversation st"
  by (cases ev) auto

lemma side_effects_upd:
  "side_effects ev (st\<lparr>currentConversation := c\<rparr>) =
     (side_effects ev st)\<lparr>currentConversation := c\<rparr>"
  by (cases ev) auto

lemma side_effects_all_upd:
  "(side_effects_all evs (st\<lparr>currentConversation := y\<rparr>))\<lparr>currentConversation := x\<rparr> =
     (side_effects_all evs st)\<lparr>currentConversation := x\<rparr>"
  by (induction evs arbitrary: st) (simp_all add: side_effects_upd)

text \<open>With a conversation whose list is not empty, the callback rewrites the last message.\<close>

lemma on_event_Some:
  assumes "currentConversation st = Some c" and "messages c = ms @ [m]"
  shows "on_event ev st =
           Inr ((side_effects ev st)
                  \<lparr>currentConversation := Some (c\<lparr>messages := ms @ [consume ev m]\<rparr>)\<rparr>)"
  using assms by (simp add: on_event_def Let_def consume_def side_effects_upd)

lemma run_events_Some:
  assumes "currentConversation st = Some c" and "messages c = ms @ [m]"
  shows "run_events evs st =
           Inr ((side_effects_all evs st)
                  \<lparr>currentConversation := Some (c\<lparr>messages := ms @ [consume_all evs m]\<rparr>)\<rparr>)"
  using assms
proof (induction evs arbitrary: st c m)
  case Nil
  then show ?case by simp
next
  case (Cons ev evs)
  let ?c' = "c\<lparr>messages := ms @ [consume ev m]\<rparr>"
  let ?st' = "(side_effects ev st)\<lparr>currentConversation := Some ?c'\<rparr>"
  have step: "on_event ev st = Inr ?st'"
    using Cons.prems by (rule on_event_Some)
  have "run_events evs ?st' =
          Inr ((side_effects_all evs ?st')
                 \<lparr>currentConversation :=
                    Some (?c'\<lparr>messages := ms @ [consume_all evs (consume ev m)]\<rparr>)\<rparr>)"
    by (rule Cons.IH) simp_all
  then show ?case
    using step by (simp add: side_effects_all_upd)
qed

lemma consume_frame:
  assumes "loading m \<noteq> None" and "f \<notin> written ev"
  shows "same_field f m (consume ev m)"
  using assms by (cases ev; cases f) (auto simp: consume_def clone_loading_def)

lemma consume_all_append: "consume_all (xs @ ys) m = consume_all ys (consume_all xs m)"
  by (induction xs arbitrary: m) simp_all

lemma consume_loading [simp]: "loading (consume ev m) \<noteq> None"
  by (cases ev) (simp_all add: consume_def)

lemma consume_keeps_stage1_loading:
  "\<not> is_stage1_complete ev \<Longrightarrow> flag_on loading_stage1 m \<Longrightarrow>
     flag_on loading_stage1 (consume ev m)"
  by (cases ev) (auto simp: consume_def flag_on_def clone_loading_def split: option.splits)

lemma consume_keeps_stage1:
  "\<not> is_stage1_complete ev \<Longrightarrow> stage1 (consume ev m) = stage1 m"
  by (cases ev) (auto simp: consume_def)

lemma consume_all_keeps_stage1_loading:
  "\<forall>ev \<in> set evs. \<not> is_stage1_complete ev \<Longrightarrow> flag_on loading_stage1 m \<Longrightarrow>
     flag_on loading_stage1 (consume_all evs m) \<and> stage1 (consume_all evs m) = stage1 m"
  by (induction evs arbitrary: m)
    (simp_all add: consume_keeps_stage1_loading consume_keeps_stage1)

lemma consume_rebuttal_start:
  "flag_on loading_stage1 (consume Stage2_5Start m) \<and>
   stage1 (consume Stage2_5Start m) = stage1 m"
  by (simp add: consume_def flag_on_def)

lemma consume_stage1_complete:
  "\<not> flag_on loading_stage1 (consume (Stage1Complete d) m) \<and>
   stage1 (consume (Stage1Complete d) m) = d"
  by (simp add: consume_def flag_on_def)

text \<open>
  C7: an event handled with a conversation whose last message is the assistant message
  (it has its \<^verbatim>\<open>loading\<close>) gives a conversation with as many messages, the same
  messages before the last one and the same other fields; in the last message every field
  that the case of the event does not write has the value it had.
\<close>

theorem C7_frame:
  assumes "currentConversation st = Some prev"
    and "messages prev \<noteq> []"
    and "loading (last (messages prev)) \<noteq> None"
  shows "\<exists>st' conv'.
           on_event ev st = Inr st' \<and> currentConversation st' = Some conv' \<and>
           length (messages conv') = length (messages prev) \<and>
           (\<forall>i. i + 1 < length (messages prev) \<longrightarrow>
                messages conv' ! i = messages prev ! i) \<and>
           conv_id conv' = conv_id prev \<and> created_at conv' = created_at prev \<and>
           title conv' = title prev \<and>
           (\<forall>f. f \<notin> written ev \<longrightarrow>
                same_field f (last (messages prev)) (last (messages conv')))"
proof -
  from assms(2) obtain ms m where ms: "messages prev = ms @ [m]"
    by (cases "messages prev" rule: rev_cases) auto
  let ?conv = "prev\<lparr>messages := ms @ [consume ev m]\<rparr>"
  let ?st = "(side_effects ev st)\<lparr>currentConversation := Some ?conv\<rparr>"
  have "on_event ev st = Inr ?st"
    using assms(1) ms by (rule on_event_Some)
  moreover have "currentConversation ?st = Some ?conv" by simp
  moreover have "length (messages ?conv) = length (messages prev)"
    using ms by simp
  moreover have "\<forall>i. i + 1 < length (messages prev) \<longrightarrow>
      messages ?conv ! i = messages prev ! i"
    using ms by (simp add: nth_append)
  moreover have "\<forall>f. f \<notin> written ev \<longrightarrow>
      same_field f (last (messages prev)) (last (messages ?conv))"
    using assms(3) ms by (simp add: consume_frame)
  ultimately show ?thesis by simp
qed

theorem C7_frame_witness:
  "on_event (Stage2Complete (Some (JArray [])) (Some (JObject [])))
     \<lparr>currentConversationId = Some ''c1'',
      currentConversation =
        Some \<lparr>conv_id = Some ''c1'', created_at = None, title = None,
              messages = [userMessage ''X'',
                          assistantMessage\<lparr>stage1 := Some [first_answer]\<rparr>]\<rparr>,
      isLoading = True, hook_error = None, reloads = 0\<rparr> =
   Inr
     \<lparr>currentConversationId = Some ''c1'',
      currentConversation =
        Some \<lparr>conv_id = Some ''c1'', created_at = None, title = None,
              messages = [userMessage ''X'',
                          assistantMessage\<lparr>stage1 := Some [first_answer],
                            stage2 := Some (JArray []), metadata := Some (JObject [])\<rparr>]\<rparr>,
      isLoading = True, hook_error = None, reloads = 0\<rparr>"
  using C7_frame [of
     "\<lparr>currentConversationId = Some ''c1'',
      currentConversation =
        Some \<lparr>conv_id = Some ''c1'', created_at = None, title = None,
              messages = [userMessage ''X'',
                          assistantMessage\<lparr>stage1 := Some [first_answer]\<rparr>]\<rparr>,
      isLoading = True, hook_error = None, reloads = 0\<rparr>"
     "\<lparr>conv_id = Some ''c1'', created_at = None, title = None,
       messages = [userMessage ''X'', assistantMessage\<lparr>stage1 := Some [first_answer]\<rparr>]\<rparr>"
     "Stage2Complete (Some (JArray [])) (Some (JObject []))"]
  by (simp add: on_event_def Let_def assistantMessage_def clone_loading_def)

text \<open>
  C8: the panel of a result with \<^verbatim>\<open>is_rebuttal\<close> has the badge with the text "This
  answer was updated after peer review."; and a \<^verbatim>\<open>stage2_5_start\<close> event sets the
  loading flag of the first stage and leaves the answers shown, the flag stays set and the
  answers stay under every event that is no \<^verbatim>\<open>stage1_complete\<close>, and the next
  \<^verbatim>\<open>stage1_complete\<close> event puts its data in the place of the answers and clears the
  flag.
\<close>

theorem C8_rebuttal:
  "(activeTab < length rs \<and> is_rebuttal (rs ! activeTab) \<longrightarrow>
      (\<exists>v. Stage1 (Some rs) activeTab = Inr (Some v) \<and>
           rebuttal_badge (tab_content v) =
             Some ''This answer was updated after peer review.'')) \<and>
   (currentConversation st = Some prev \<and> messages prev \<noteq> [] \<and>
    (\<forall>ev \<in> set evs. \<not> is_stage1_complete ev) \<longrightarrow>
      (\<exists>st1 c1 st2 c2.
         run_events (Stage2_5Start # evs) st = Inr st1 \<and>
         currentConversation st1 = Some c1 \<and>
         flag_on loading_stage1 (last (messages c1)) \<and>
         stage1 (last (messages c1)) = stage1 (last (messages prev)) \<and>
         run_events (Stage2_5Start # evs @ [Stage1Complete d]) st = Inr st2 \<and>
         currentConversation st2 = Some c2 \<and>
         \<not> flag_on loading_stage1 (last (messages c2)) \<and>
         stage1 (last (messages c2)) = d \<and>
         butlast (messages c2) = butlast (messages prev)))"
proof (intro conjI impI)
  assume "activeTab < length rs \<and> is_rebuttal (rs ! activeTab)"
  then show "\<exists>v. Stage1 (Some rs) activeTab = Inr (Some v) \<and>
           rebuttal_badge (tab_content v) =
             Some ''This answer was updated after peer review.''"
    by (auto simp: Stage1_def render_panel_def)
next
  assume h: "currentConversation st = Some prev \<and> messages prev \<noteq> [] \<and>
    (\<forall>ev \<in> set evs. \<not> is_stage1_complete ev)"
  then obtain ms m where ms: "messages prev = ms @ [m]"
    by (cases "messages prev" rule: rev_cases) auto
  from h have cc: "currentConversation st = Some prev" by simp
  let ?m1 = "consume_all evs (consume Stage2_5Start m)"
  have m1: "flag_on loading_stage1 ?m1 \<and> stage1 ?m1 = stage1 m"
    using h consume_all_keeps_stage1_loading [of evs "consume Stage2_5Start m"]
    by (simp add: consume_rebuttal_start)
  have r1: "run_events (Stage2_5Start # evs) st =
      Inr ((side_effects_all (Stage2_5Start # evs) st)
             \<lparr>currentConversation :=
                Some (prev\<lparr>messages := ms @ [consume_all (Stage2_5Start # evs) m]\<rparr>)\<rparr>)"
    using cc ms by (rule run_events_Some)
  have r2: "run_events (Stage2_5Start # evs @ [Stage1Complete d]) st =
      Inr ((side_effects_all (Stage2_5Start # evs @ [Stage1Complete d]) st)
             \<lparr>currentConversation :=
                Some (prev\<lparr>messages :=
                  ms @ [consume_all (Stage2_5Start # evs @ [Stage1Complete d]) m]\<rparr>)\<rparr>)"
    using cc ms by (rule run_events_Some)
  have m2: "consume_all (Stage2_5Start # evs @ [Stage1Complete d]) m =
      consume (Stage1Complete d) ?m1"
    by (simp add: consume_all_append)
  show "\<exists>st1 c1 st2 c2.
         run_events (Stage2_5Start # evs) st = Inr st1 \<and>
         currentConversation st1 = Some c1 \<and>
         flag_on loading_stage1 (last (messages c1)) \<and>
         stage1 (last (messages c1)) = stage1 (last (messages prev)) \<and>
         run_events (Stage2_5Start # evs @ [Stage1Complete d]) st = Inr st2 \<and>
         currentConversation st2 = Some c2 \<and>
         \<not> flag_on loading_stage1 (last (messages c2)) \<and>
         stage1 (last (messages c2)) = d \<and>
         butlast (messages c2) = butlast (messages prev)"
    unfolding r1 r2 m2 using m1 ms
    by (simp add: consume_stage1_complete butlast_append)
qed

theorem C8_rebuttal_witness:
  "Stage1 (Some [revised_answer]) 0 =
     Inr (Some
       \<lparr>tabs =
          [\<lparr>tab_active = True, tab_error_class = False, tab_title = [],
            tab_warning_sign = False, tab_text = ''gpt-4o''\<rparr>],
        tab_content =
          \<lparr>model_name = ''openai/gpt-4o'', reasoning_badge = False, error_badge = False,
           persona_badge = None,
           rebuttal_badge = Some ''This answer was updated after peer review.'',
           body = ResponseText None (Some ''revised'')\<rparr>\<rparr>) \<and>
   run_events [Stage2_5Start] (reviewed_hook reviewed_reply) =
     Inr (reviewed_hook (reviewed_reply
        \<lparr>loading := Some \<lparr>resolving = Some False, loading_stage1 = Some True,
                          loading_stage2 = Some False, loading_stage3 = Some False\<rparr>\<rparr>)) \<and>
   run_events [Stage2_5Start, Stage1Complete (Some [revised_answer])]
       (reviewed_hook reviewed_reply) =
     Inr (reviewed_hook (reviewed_reply\<lparr>stage1 := Some [revised_answer]\<rparr>))"
  using C8_rebuttal [of 0 "[revised_answer]" "reviewed_hook reviewed_reply"
      "\<lparr>conv_id = Some ''c1'', created_at = None, title = None,
        messages = [userMessage ''X'', reviewed_reply]\<rparr>" "[]" "Some [revised_answer]"]
  by (simp add: reviewed_hook_def reviewed_reply_def revised_answer_def Stage1_def
       render_tab_def render_panel_def thinking_section_def tab_label_def truthy_def
       falsy_def on_event_def Let_def assistantMessage_def clone_loading_def)

section \<open>Properties of sending a message\<close>

lemma consume_no_stage_event:
  "\<not> is_stage_event ev \<Longrightarrow> loading m = Some l \<Longrightarrow> consume ev m = m"
  by (cases ev) (simp_all add: consume_def clone_loading_def)

text \<open>
  On a last message that has its \<^verbatim>\<open>loading\<close>, the callback of the older handler does
  what the callback of the hook does.
\<close>

lemma App_on_event_Some:
  assumes "currentConversation st = Some c" and "messages c = ms @ [m]"
    and "loading m = Some l"
  shows "App_on_event ev st =
           Inr ((side_effects ev st)
                  \<lparr>currentConversation := Some (c\<lparr>messages := ms @ [consume ev m]\<rparr>)\<rparr>)"
proof (cases "is_stage_event ev")
  case True
  then have "side_effects ev st = st" by (cases ev) simp_all
  with True assms show ?thesis
    by (simp add: App_on_event_def consume_def clone_loading_def list_update_last)
next
  case False
  have "c\<lparr>messages := ms @ [m]\<rparr> = c" using assms(2) by simp
  moreover have "(side_effects ev st)\<lparr>currentConversation := Some c\<rparr> = side_effects ev st"
    using assms(1) by simp
  ultimately show ?thesis
    using False assms(3) by (simp add: App_on_event_def consume_no_stage_event)
qed

lemma App_run_events_Some:
  assumes "currentConversation st = Some c" and "messages c = ms @ [m]"
    and "loading m \<noteq> None"
  shows "App_run_events evs st =
           Inr ((side_effects_all evs st)
                  \<lparr>currentConversation := Some (c\<lparr>messages := ms @ [consume_all evs m]\<rparr>)\<rparr>)"
  using assms
proof (induction evs arbitrary: st c m)
  case Nil
  then show ?case by simp
next
  case (Cons ev evs)
  from Cons.prems(3) obtain l where l: "loading m = Some l" by auto
  let ?c' = "c\<lparr>messages := ms @ [consume ev m]\<rparr>"
  let ?st' = "(side_effects ev st)\<lparr>currentConversation := Some ?c'\<rparr>"
  have step: "App_on_event ev st = Inr ?st'"
    using Cons.prems(1,2) l by (rule App_on_event_Some)
  have "App_run_events evs ?st' =
          Inr ((side_effects_all evs ?st')
                 \<lparr>currentConversation :=
                    Some (?c'\<lparr>messages := ms @ [consume_all evs (consume ev m)]\<rparr>)\<rparr>)"
    by (rule Cons.IH) simp_all
  then show ?case
    using step by (simp add: side_effects_all_upd)
qed

text \<open>
  C9: with a conversation loaded, a send whose stream throws, after any events, ends
  with the conversation it started from (the same message list, the same other fields)
  and with the loading flag cleared; a send whose stream returns ends with two more
  messages after the ones it started from, so the two messages removed are the two added.
  The hook records the message of the error; the older handler of the application
  component, with \<^verbatim>\<open>slice(0, -2)\<close>, restores the conversation in the same way.
\<close>

theorem C9_restore:
  assumes "\<not> falsy (currentConversationId st)" and "currentConversation st = Some conv"
  shows "(\<exists>st'. sendMessage c evs (Throws msg) st = Inr st' \<and>
              currentConversation st' = Some conv \<and> isLoading st' = False \<and>
              hook_error st' = Some msg) \<and>
         (\<exists>st' conv'. sendMessage c evs Returns st = Inr st' \<and>
              currentConversation st' = Some conv' \<and>
              length (messages conv') = length (messages conv) + 2 \<and>
              take (length (messages conv)) (messages conv') = messages conv) \<and>
         (\<exists>st'. handleSendMessage c evs (Throws msg) st = Inr st' \<and>
              currentConversation st' = Some conv \<and> isLoading st' = False)"
proof -
  let ?ms = "messages conv @ [userMessage c]"
  let ?c3 = "conv\<lparr>messages := ?ms @ [assistantMessage]\<rparr>"
  let ?st3 = "st\<lparr>isLoading := True, currentConversation := Some ?c3\<rparr>"
  let ?c4 = "?c3\<lparr>messages := ?ms @ [consume_all evs assistantMessage]\<rparr>"
  have la: "loading assistantMessage \<noteq> None" by (simp add: assistantMessage_def)
  have run: "run_events evs ?st3 =
      Inr ((side_effects_all evs ?st3)\<lparr>currentConversation := Some ?c4\<rparr>)"
    by (rule run_events_Some) simp_all
  have App_run: "App_run_events evs ?st3 =
      Inr ((side_effects_all evs ?st3)\<lparr>currentConversation := Some ?c4\<rparr>)"
    by (rule App_run_events_Some) (simp_all add: la)
  have thrown: "\<exists>st'. sendMessage c evs (Throws msg) st = Inr st' \<and>
              currentConversation st' = Some conv \<and> isLoading st' = False \<and>
              hook_error st' = Some msg"
    using assms run
    by (simp add: sendMessage_def Let_def append_message_def remove_optimistic_def)
  have returned: "\<exists>st' conv'. sendMessage c evs Returns st = Inr st' \<and>
              currentConversation st' = Some conv' \<and>
              length (messages conv') = length (messages conv) + 2 \<and>
              take (length (messages conv)) (messages conv') = messages conv"
    using assms run
    by (simp add: sendMessage_def Let_def append_message_def)
  have older: "\<exists>st'. handleSendMessage c evs (Throws msg) st = Inr st' \<and>
              currentConversation st' = Some conv \<and> isLoading st' = False"
    using assms App_run
    by (simp add: handleSendMessage_def App_append_def App_remove_optimistic_def)
  from thrown returned older show ?thesis by blast
qed

theorem C9_restore_witness:
  "sendMessage ''X'' [ResolvingPersonas, Stage1Start] (Throws ''Failed to fetch'')
       history_hook =
     Inr (history_hook\<lparr>hook_error := Some ''Failed to fetch''\<rparr>) \<and>
   handleSendMessage ''X'' [ResolvingPersonas, Stage1Start] (Throws ''Failed to fetch'')
       history_hook = Inr history_hook"
  using C9_restore [of history_hook
      "\<lparr>conv_id = Some ''c1'', created_at = None, title = Some ''T'',
        messages = [userMessage ''Q'', stored_reply]\<rparr>"
      "''X''" "[ResolvingPersonas, Stage1Start]" "''Failed to fetch''"]
  by (simp add: sendMessage_def handleSendMessage_def history_hook_def on_event_def
       App_on_event_def Let_def falsy_def append_message_def remove_optimistic_def
       App_append_def App_remove_optimistic_def assistantMessage_def clone_loading_def)

section \<open>The order of the events of an exchange\<close>















section \<open>Properties of the anonymizer\<close>







section \<open>Properties of the ranking aggregator\<close>

lemma better_mean: "better a b \<Longrightarrow> mean a \<le> mean b"
  by (auto simp: better_def)

lemma not_better_mean: "\<not> better a b \<Longrightarrow> mean b \<le> mean a"
  by (auto simp: better_def)

lemma set_place [simp]: "set (place e xs) = insert e (set xs)"
  by (induction xs) auto

lemma sorted_place:
  "sorted_wrt (\<lambda>a b. mean a \<le> mean b) xs \<Longrightarrow>
     sorted_wrt (\<lambda>a b. mean a \<le> mean b) (place e xs)"
proof (induction xs)
  case Nil
  then show ?case by simp
next
  case (Cons x xs)
  show ?case
  proof (cases "better e x")
    case True
    then have "mean e \<le> mean x" by (rule better_mean)
    with Cons.prems True show ?thesis by auto
  next
    case False
    then have "mean x \<le> mean e" by (rule not_better_mean)
    with Cons False show ?thesis by auto
  qed
qed

lemma sorted_aggregate: "sorted_wrt (\<lambda>a b. mean a \<le> mean b) (aggregate answers reviews)"
proof -
  have "sorted_wrt (\<lambda>a b. mean a \<le> mean b) (foldl (\<lambda>acc e. place e acc) acc es)"
    if "sorted_wrt (\<lambda>a b. mean a \<le> mean b) acc" for acc es
    using that by (induction es arbitrary: acc) (simp_all add: sorted_place)
  then show ?thesis by (simp add: aggregate_def)
qed

lemma set_aggregate: "set (aggregate answers reviews) = set (entries answers reviews)"
proof -
  have "set (foldl (\<lambda>acc e. place e acc) acc es) = set acc \<union> set es" for acc es
    by (induction es arbitrary: acc) auto
  then show ?thesis by (simp add: aggregate_def)
qed

lemma position_None_iff: "position l r = None \<longleftrightarrow> l \<notin> set r"
  by (induction r) auto

lemma length_positions:
  "length (positions reviews l) = length (filter (\<lambda>r. l \<in> set r) reviews)"
proof (induction reviews)
  case Nil
  show ?case by (simp add: positions_def)
next
  case (Cons r rs)
  then show ?case
    by (cases "position l r") (auto simp: positions_def position_None_iff [symmetric])
qed

lemma positions_unranked:
  "l \<notin> set r \<Longrightarrow> positions (rs1 @ r # rs2) l = positions (rs1 @ rs2) l"
  by (simp add: positions_def position_None_iff [symmetric])

lemma entries_sound:
  assumes "e \<in> set (entries answers reviews)"
  shows "answer e \<in> set answers \<and> mean_rank reviews (answer e) = Some (mean e) \<and>
         votes e = length (filter (\<lambda>r. answer e \<in> set r) reviews)"
  using assms by (auto simp: entries_def length_positions split: option.splits)

text \<open>
  C4: for the reviews [[A,B,C],[B,A,C],[A,B,C]] the aggregate order is A, B, C with the
  mean ranks 4/3, 5/3 and 3, which are 1.33, 1.67 and 3.00 in hundredths. In general the
  aggregate is in the order of the means, lowest first; the mean of an entry is the mean
  of the positions of its answer in the reviews that rank it, which are its votes; and a
  review that does not rank an answer does not change the mean of that answer.
\<close>

theorem C4_aggregate:
  "aggregate [Label 0, Label 1, Label 2]
     [[Label 0, Label 1, Label 2], [Label 1, Label 0, Label 2], [Label 0, Label 1, Label 2]] =
     [\<lparr>answer = Label 0, mean = 4 / 3, votes = 3, abstentions = 0\<rparr>,
      \<lparr>answer = Label 1, mean = 5 / 3, votes = 3, abstentions = 0\<rparr>,
      \<lparr>answer = Label 2, mean = 3, votes = 3, abstentions = 0\<rparr>] \<and>
   map hundredths [4 / 3, 5 / 3, 3] = [133, 167, 300] \<and>
   sorted_wrt (\<lambda>a b. mean a \<le> mean b) (aggregate answers reviews) \<and>
   (\<forall>e \<in> set (aggregate answers reviews).
      mean_rank reviews (answer e) = Some (mean e) \<and>
      votes e = length (filter (\<lambda>r. answer e \<in> set r) reviews)) \<and>
   (l \<notin> set r \<longrightarrow> mean_rank (rs1 @ r # rs2) l = mean_rank (rs1 @ rs2) l)"
proof -
  have ex: "aggregate [Label 0, Label 1, Label 2]
     [[Label 0, Label 1, Label 2], [Label 1, Label 0, Label 2], [Label 0, Label 1, Label 2]] =
     [\<lparr>answer = Label 0, mean = 4 / 3, votes = 3, abstentions = 0\<rparr>,
      \<lparr>answer = Label 1, mean = 5 / 3, votes = 3, abstentions = 0\<rparr>,
      \<lparr>answer = Label 2, mean = 3, votes = 3, abstentions = 0\<rparr>]"
    by (simp add: aggregate_def entries_def mean_rank_def positions_def better_def Let_def)
  have hs: "map hundredths [4 / 3, 5 / 3, 3] = [133, 167, 300]"
    by (simp add: hundredths_def floor_eq_iff)
  have so: "sorted_wrt (\<lambda>a b. mean a \<le> mean b) (aggregate answers reviews)"
    by (rule sorted_aggregate)
  have en: "\<forall>e \<in> set (aggregate answers reviews).
      mean_rank reviews (answer e) = Some (mean e) \<and>
      votes e = length (filter (\<lambda>r. answer e \<in> set r) reviews)"
    using entries_sound by (simp add: set_aggregate)
  have un: "l \<notin> set r \<longrightarrow> mean_rank (rs1 @ r # rs2) l = mean_rank (rs1 @ rs2) l"
    by (simp add: mean_rank_def positions_unranked)
  from ex hs so en un show ?thesis by blast
qed

theorem C4_aggregate_witness:
  "aggregate [Label 0, Label 1] [[Label 1], [Label 0]] =
     [\<lparr>answer = Label 0, mean = 1, votes = 1, abstentions = 1\<rparr>,
      \<lparr>answer = Label 1, mean = 1, votes = 1, abstentions = 1\<rparr>] \<and>
   mean_rank [[Label 1], [Label 0]] (Label 0) = Some 1 \<and>
   mean_rank [[Label 0]] (Label 0) = Some 1"
  using C4_aggregate [of "[Label 0, Label 1]" "[[Label 1], [Label 0]]" "Label 0" "[Label 1]"
      "[]" "[[Label 0]]"]
  by (simp add: aggregate_def entries_def mean_rank_def positions_def better_def Let_def)

end
